theory Spec2Isabelle
  imports Complex_Main "HOL-Library.Sublist"
begin

section \<open>Order-line price computation (order-line.entity.ts)\<close>

text \<open>
  A shallow embedding of the \<^verbatim>\<open>OrderLine\<close> entity: the calculated price getters, the
  discount grouping of \<^verbatim>\<open>discounts\<close> and the two mutators of the adjustment list.

  Only the columns that the price computation reads are kept in the record; the
  relations (order, product variant, tax category, asset, channels, shipping line,
  cancellation, custom fields) are never read by any of the embedded members.
\<close>

subsection \<open>JavaScript numbers\<close>

text \<open>
  The calculated members return the JavaScript type \<^verbatim>\<open>number\<close>. A finite number is
  modelled by an exact rational; the three special values that a division by zero
  produces and that propagate through later arithmetic are kept as constructors, with
  the IEEE 754 rules for them. Binary rounding of finite results, overflow to infinity
  and the sign of zero are not modelled: a quotient or a sum that is a rational here is
  the nearest double in the code. The two agree on integers and on dyadic fractions of
  the magnitudes that prices have; they can differ in the last bit otherwise, which
  moves the result of \<^verbatim>\<open>Math.round\<close> when the exact value is a tie (the amounts \<open>-5\<close>,
  \<open>-3\<close> and \<open>-1\<close> over six units sum to \<open>-3/2\<close> here and to a double just below it in
  the code). The properties below are therefore relations between the operations, and
  name a value only where the arithmetic of the code is exact.
\<close>

datatype number = Fin rat | PInf | NInf | NaN

definition num_of_int :: "int \<Rightarrow> number" where
  "num_of_int i = Fin (of_int i)"

fun num_neg :: "number \<Rightarrow> number" where
  "num_neg (Fin a) = Fin (- a)"
| "num_neg PInf = NInf"
| "num_neg NInf = PInf"
| "num_neg NaN = NaN"

fun num_add :: "number \<Rightarrow> number \<Rightarrow> number" where
  "num_add (Fin a) (Fin b) = Fin (a + b)"
| "num_add (Fin a) PInf = PInf"
| "num_add (Fin a) NInf = NInf"
| "num_add PInf (Fin b) = PInf"
| "num_add NInf (Fin b) = NInf"
| "num_add PInf PInf = PInf"
| "num_add NInf NInf = NInf"
| "num_add PInf NInf = NaN"
| "num_add NInf PInf = NaN"
| "num_add NaN y = NaN"
| "num_add x NaN = NaN"

definition num_sub :: "number \<Rightarrow> number \<Rightarrow> number" where
  "num_sub x y = num_add x (num_neg y)"

fun num_mul :: "number \<Rightarrow> number \<Rightarrow> number" where
  "num_mul (Fin a) (Fin b) = Fin (a * b)"
| "num_mul (Fin a) PInf = (if a = 0 then NaN else if 0 < a then PInf else NInf)"
| "num_mul (Fin a) NInf = (if a = 0 then NaN else if 0 < a then NInf else PInf)"
| "num_mul PInf (Fin b) = (if b = 0 then NaN else if 0 < b then PInf else NInf)"
| "num_mul NInf (Fin b) = (if b = 0 then NaN else if 0 < b then NInf else PInf)"
| "num_mul PInf PInf = PInf"
| "num_mul NInf NInf = PInf"
| "num_mul PInf NInf = NInf"
| "num_mul NInf PInf = NInf"
| "num_mul NaN y = NaN"
| "num_mul x NaN = NaN"

fun num_div :: "number \<Rightarrow> number \<Rightarrow> number" where
  "num_div (Fin a) (Fin b) =
     (if b = 0 then (if a = 0 then NaN else if 0 < a then PInf else NInf)
      else Fin (a / b))"
| "num_div (Fin a) PInf = Fin 0"
| "num_div (Fin a) NInf = Fin 0"
| "num_div PInf (Fin b) = (if 0 \<le> b then PInf else NInf)"
| "num_div NInf (Fin b) = (if 0 \<le> b then NInf else PInf)"
| "num_div PInf PInf = NaN"
| "num_div NInf NInf = NaN"
| "num_div PInf NInf = NaN"
| "num_div NInf PInf = NaN"
| "num_div NaN y = NaN"
| "num_div x NaN = NaN"

text \<open>
  \<^verbatim>\<open>Math.round\<close>: the nearest integer, a tie going towards plus infinity; the special
  values are returned unchanged.
\<close>

fun Math_round :: "number \<Rightarrow> number" where
  "Math_round (Fin a) = Fin (of_int \<lfloor>a + 1 / 2\<rfloor>)"
| "Math_round PInf = PInf"
| "Math_round NInf = NInf"
| "Math_round NaN = NaN"

text \<open>
  \<^verbatim>\<open>xs.reduce((total, a) => total + a, 0)\<close>: a left fold of the addition from \<open>0\<close>.
\<close>

definition num_sum :: "number list \<Rightarrow> number" where
  "num_sum xs = foldl num_add (Fin 0) xs"

definition is_finite :: "number \<Rightarrow> bool" where
  "is_finite x = (case x of Fin a \<Rightarrow> True | _ \<Rightarrow> False)"

subsection \<open>Data model\<close>

text \<open>
  Modelled from the spec: the generated types \<^verbatim>\<open>AdjustmentType\<close>, \<^verbatim>\<open>Adjustment\<close>,
  \<^verbatim>\<open>TaxLine\<close> and \<^verbatim>\<open>Discount\<close> are imported from
  \<^verbatim>\<open>@vendure/common/lib/generated-types\<close>, whose declarations are not part of the
  entity file. The fields are those the data model lists. An adjustment amount and a
  tax rate are stored as JSON and therefore finite; a discount's two amounts are
  computed and may be any \<open>number\<close>.
\<close>

datatype AdjustmentType = PROMOTION | DISTRIBUTED_ORDER_PROMOTION | OTHER

record Adjustment =
  adjustmentSource :: string
  type :: AdjustmentType
  description :: string
  amount :: rat

record TaxLine =
  description :: string
  taxRate :: rat

record Discount =
  adjustmentSource :: string
  type :: AdjustmentType
  description :: string
  amount :: number
  amountWithTax :: number

text \<open>
  The columns of \<^verbatim>\<open>OrderLine\<close>. The four numeric columns are integer columns.
  \<^verbatim>\<open>adjustments\<close> may be absent on an entity built from a partial input, which the
  code tests for (\<^verbatim>\<open>!this.adjustments\<close>), hence the option.
\<close>

record OrderLine =
  quantity :: int
  orderPlacedQuantity :: int
  initialListPrice :: int
  listPrice :: int
  listPriceIncludesTax :: bool
  adjustments :: "Adjustment list option"
  taxLines :: "TaxLine list"

datatype error = TypeError

subsection \<open>Imported helpers\<close>

text \<open>
  Modelled from the spec: \<^verbatim>\<open>summate\<close> of \<^verbatim>\<open>@vendure/common/lib/shared-utils\<close> is not
  part of the entity file. The aggregate tax rate is the sum of the rates of all tax
  lines, \<open>0\<close> for an empty sequence.
\<close>

definition summate :: "'a list \<Rightarrow> ('a \<Rightarrow> rat) \<Rightarrow> rat" where
  "summate items prop = foldl (\<lambda>sum i. sum + prop i) 0 items"

text \<open>
  Modelled from the spec: \<^verbatim>\<open>netPriceOf\<close> and \<^verbatim>\<open>grossPriceOf\<close> of
  \<^verbatim>\<open>common/tax-utils\<close> are not part of the entity file. The net price is
  \<open>amount / (1 + ratePercent / 100)\<close> and the gross price is
  \<open>amount * (1 + ratePercent / 100)\<close>, each rounded to the nearest integer; the rounding
  is the one rounding function of the entity file, \<^verbatim>\<open>Math.round\<close>.
\<close>

definition netPriceOf :: "number \<Rightarrow> rat \<Rightarrow> number" where
  "netPriceOf grossPrice taxRatePc =
     Math_round (num_div grossPrice (Fin (1 + taxRatePc / 100)))"

definition grossPriceOf :: "number \<Rightarrow> rat \<Rightarrow> number" where
  "grossPriceOf netPrice taxRatePc =
     Math_round (num_mul netPrice (Fin (1 + taxRatePc / 100)))"

subsection \<open>The calculated getters\<close>

definition taxRate :: "OrderLine \<Rightarrow> rat" where
  "taxRate l = summate (taxLines l) TaxLine.taxRate"

definition unitPrice :: "OrderLine \<Rightarrow> number" where
  "unitPrice l =
     (if listPriceIncludesTax l then netPriceOf (num_of_int (listPrice l)) (taxRate l)
      else num_of_int (listPrice l))"

definition unitPriceWithTax :: "OrderLine \<Rightarrow> number" where
  "unitPriceWithTax l =
     (if listPriceIncludesTax l then num_of_int (listPrice l)
      else grossPriceOf (num_of_int (listPrice l)) (taxRate l))"

definition unitPriceChangeSinceAdded :: "OrderLine \<Rightarrow> number" where
  "unitPriceChangeSinceAdded l =
     (let initialPrice =
        (if listPriceIncludesTax l
         then netPriceOf (num_of_int (initialListPrice l)) (taxRate l)
         else num_of_int (initialListPrice l))
      in num_sub (unitPrice l) initialPrice)"

definition unitPriceWithTaxChangeSinceAdded :: "OrderLine \<Rightarrow> number" where
  "unitPriceWithTaxChangeSinceAdded l =
     (let initialPriceWithTax =
        (if listPriceIncludesTax l then num_of_int (initialListPrice l)
         else grossPriceOf (num_of_int (initialListPrice l)) (taxRate l))
      in num_sub (unitPriceWithTax l) initialPriceWithTax)"

text \<open>
  \<^verbatim>\<open>getAdjustmentsTotal(type?)\<close>. The argument is optional; every member of the enum is
  a non-empty string, so \<^verbatim>\<open>type ? ... : true\<close> tests for its presence. An empty array
  is truthy, so the first guard fires only for an absent list.
\<close>

definition type_selected :: "AdjustmentType option \<Rightarrow> Adjustment \<Rightarrow> bool" where
  "type_selected ty adjustment =
     (case ty of Some t \<Rightarrow> Adjustment.type adjustment = t | None \<Rightarrow> True)"

definition getAdjustmentsTotal :: "OrderLine \<Rightarrow> AdjustmentType option \<Rightarrow> number" where
  "getAdjustmentsTotal l ty =
     (case adjustments l of
        None \<Rightarrow> Fin 0
      | Some adjs \<Rightarrow>
          if quantity l = 0 then Fin 0
          else Math_round
                 (num_sum
                    (map (\<lambda>adjustment.
                            num_div (Fin (Adjustment.amount adjustment))
                              (num_of_int (max (orderPlacedQuantity l) (quantity l))))
                       (filter (type_selected ty) adjs))))"

definition discountedUnitPrice :: "OrderLine \<Rightarrow> number" where
  "discountedUnitPrice l =
     (let result = num_add (num_of_int (listPrice l)) (getAdjustmentsTotal l (Some PROMOTION))
      in if listPriceIncludesTax l then netPriceOf result (taxRate l) else result)"

definition discountedUnitPriceWithTax :: "OrderLine \<Rightarrow> number" where
  "discountedUnitPriceWithTax l =
     (let result = num_add (num_of_int (listPrice l)) (getAdjustmentsTotal l (Some PROMOTION))
      in if listPriceIncludesTax l then result else grossPriceOf result (taxRate l))"

definition proratedUnitPrice :: "OrderLine \<Rightarrow> number" where
  "proratedUnitPrice l =
     (let result = num_add (num_of_int (listPrice l)) (getAdjustmentsTotal l None)
      in if listPriceIncludesTax l then netPriceOf result (taxRate l) else result)"

definition proratedUnitPriceWithTax :: "OrderLine \<Rightarrow> number" where
  "proratedUnitPriceWithTax l =
     (let result = num_add (num_of_int (listPrice l)) (getAdjustmentsTotal l None)
      in if listPriceIncludesTax l then result else grossPriceOf result (taxRate l))"

definition unitTax :: "OrderLine \<Rightarrow> number" where
  "unitTax l = num_sub (unitPriceWithTax l) (unitPrice l)"

definition proratedUnitTax :: "OrderLine \<Rightarrow> number" where
  "proratedUnitTax l = num_sub (proratedUnitPriceWithTax l) (proratedUnitPrice l)"

definition linePrice :: "OrderLine \<Rightarrow> number" where
  "linePrice l = num_mul (unitPrice l) (num_of_int (quantity l))"

definition linePriceWithTax :: "OrderLine \<Rightarrow> number" where
  "linePriceWithTax l = num_mul (unitPriceWithTax l) (num_of_int (quantity l))"

definition discountedLinePrice :: "OrderLine \<Rightarrow> number" where
  "discountedLinePrice l = num_mul (discountedUnitPrice l) (num_of_int (quantity l))"

definition discountedLinePriceWithTax :: "OrderLine \<Rightarrow> number" where
  "discountedLinePriceWithTax l =
     num_mul (discountedUnitPriceWithTax l) (num_of_int (quantity l))"

definition lineTax :: "OrderLine \<Rightarrow> number" where
  "lineTax l = num_mul (unitTax l) (num_of_int (quantity l))"

definition proratedLinePrice :: "OrderLine \<Rightarrow> number" where
  "proratedLinePrice l = num_mul (proratedUnitPrice l) (num_of_int (quantity l))"

definition proratedLinePriceWithTax :: "OrderLine \<Rightarrow> number" where
  "proratedLinePriceWithTax l =
     num_mul (proratedUnitPriceWithTax l) (num_of_int (quantity l))"

definition proratedLineTax :: "OrderLine \<Rightarrow> number" where
  "proratedLineTax l = num_mul (proratedUnitTax l) (num_of_int (quantity l))"

subsection \<open>The discounts getter\<close>

text \<open>
  \<^verbatim>\<open>groupedDiscounts\<close> is a JavaScript \<^verbatim>\<open>Map\<close>, which iterates in insertion order:
  an association list with one pair per key. \<^verbatim>\<open>set\<close> of a new key appends; a change of
  the value held under an existing key keeps the key's position.
\<close>

type_synonym ('k, 'v) js_map = "('k \<times> 'v) list"

fun Map_get :: "('k, 'v) js_map \<Rightarrow> 'k \<Rightarrow> 'v option" where
  "Map_get [] k = None"
| "Map_get ((k', v) # m) k = (if k' = k then Some v else Map_get m k)"

fun Map_set :: "('k, 'v) js_map \<Rightarrow> 'k \<Rightarrow> 'v \<Rightarrow> ('k, 'v) js_map" where
  "Map_set [] k v = [(k, v)]"
| "Map_set ((k', v') # m) k v = (if k' = k then (k, v) # m else (k', v') # Map_set m k v)"

definition Map_values :: "('k, 'v) js_map \<Rightarrow> 'v list" where
  "Map_values m = map snd m"

text \<open>
  One iteration of the \<^verbatim>\<open>for ... of\<close> loop. The three local constants of the loop
  body are expressions in \<^verbatim>\<open>adjustment.amount\<close> and the fields of the line, and are
  functions of that amount here. In the first branch the code mutates the
  \<^verbatim>\<open>Discount\<close> object that the map holds, which is a change of the value under the
  key \<^verbatim>\<open>adjustment.adjustmentSource\<close>.
\<close>

definition unitAdjustmentAmount :: "OrderLine \<Rightarrow> rat \<Rightarrow> number" where
  "unitAdjustmentAmount l adjustment_amount =
     num_mul
       (num_div (Fin adjustment_amount)
          (num_of_int (max (orderPlacedQuantity l) (quantity l))))
       (num_of_int (quantity l))"

definition discount_amount :: "OrderLine \<Rightarrow> rat \<Rightarrow> number" where
  "discount_amount l adjustment_amount =
     (if listPriceIncludesTax l
      then netPriceOf (unitAdjustmentAmount l adjustment_amount) (taxRate l)
      else unitAdjustmentAmount l adjustment_amount)"

definition discount_amountWithTax :: "OrderLine \<Rightarrow> rat \<Rightarrow> number" where
  "discount_amountWithTax l adjustment_amount =
     (if listPriceIncludesTax l
      then unitAdjustmentAmount l adjustment_amount
      else grossPriceOf (unitAdjustmentAmount l adjustment_amount) (taxRate l))"

definition discounts_step ::
  "OrderLine \<Rightarrow> (string, Discount) js_map \<Rightarrow> Adjustment \<Rightarrow> (string, Discount) js_map" where
  "discounts_step l groupedDiscounts adjustment =
     (let amount = discount_amount l (Adjustment.amount adjustment);
          amountWithTax = discount_amountWithTax l (Adjustment.amount adjustment)
      in case Map_get groupedDiscounts (Adjustment.adjustmentSource adjustment) of
           Some discountGroup \<Rightarrow>
             Map_set groupedDiscounts (Adjustment.adjustmentSource adjustment)
               (discountGroup
                  \<lparr>Discount.amount := num_add (Discount.amount discountGroup) amount,
                   Discount.amountWithTax :=
                     num_add (Discount.amountWithTax discountGroup) amountWithTax\<rparr>)
         | None \<Rightarrow>
             Map_set groupedDiscounts (Adjustment.adjustmentSource adjustment)
               \<lparr>Discount.adjustmentSource = Adjustment.adjustmentSource adjustment,
                type = Adjustment.type adjustment,
                description = Adjustment.description adjustment,
                amount = amount,
                amountWithTax = amountWithTax\<rparr>)"

fun discounts_loop ::
  "OrderLine \<Rightarrow> (string, Discount) js_map \<Rightarrow> Adjustment list \<Rightarrow> (string, Discount) js_map" where
  "discounts_loop l groupedDiscounts [] = groupedDiscounts"
| "discounts_loop l groupedDiscounts (adjustment # rest) =
     discounts_loop l (discounts_step l groupedDiscounts adjustment) rest"

text \<open>
  The getter iterates \<^verbatim>\<open>this.adjustments\<close> with no guard: on an absent list the
  iteration throws a \<^verbatim>\<open>TypeError\<close>.
\<close>

definition discounts :: "OrderLine \<Rightarrow> error + Discount list" where
  "discounts l =
     (case adjustments l of
        None \<Rightarrow> Inl TypeError
      | Some adjs \<Rightarrow> Inr (Map_values (discounts_loop l [] adjs)))"

subsection \<open>The mutators\<close>

text \<open>
  \<^verbatim>\<open>addAdjustment\<close> calls \<^verbatim>\<open>this.adjustments.concat\<close> with no guard;
  \<^verbatim>\<open>clearAdjustments\<close> tests both its optional argument and the presence of the list.
\<close>

definition addAdjustment :: "OrderLine \<Rightarrow> Adjustment \<Rightarrow> error + OrderLine" where
  "addAdjustment l adjustment =
     (case adjustments l of
        None \<Rightarrow> Inl TypeError
      | Some adjs \<Rightarrow> Inr (l\<lparr>adjustments := Some (adjs @ [adjustment])\<rparr>))"

definition clearAdjustments :: "OrderLine \<Rightarrow> AdjustmentType option \<Rightarrow> OrderLine" where
  "clearAdjustments l ty =
     (case ty of
        None \<Rightarrow> l\<lparr>adjustments := Some []\<rparr>
      | Some t \<Rightarrow>
          l\<lparr>adjustments :=
              (case adjustments l of
                 Some adjs \<Rightarrow> Some (filter (\<lambda>a. Adjustment.type a \<noteq> t) adjs)
               | None \<Rightarrow> Some [])\<rparr>)"

subsection \<open>Reference formulations\<close>

text \<open>
  The adjustment total as the specification words it, with no guard: the sum of
  \<open>amount / max(orderPlacedQuantity, quantity)\<close> over the selected adjustments,
  rounded once.
\<close>

definition adjustmentsTotal_by_max :: "OrderLine \<Rightarrow> AdjustmentType option \<Rightarrow> number" where
  "adjustmentsTotal_by_max l ty =
     Math_round
       (num_sum
          (map (\<lambda>adjustment.
                  num_div (Fin (Adjustment.amount adjustment))
                    (num_of_int (max (orderPlacedQuantity l) (quantity l))))
             (filter (type_selected ty)
                (case adjustments l of None \<Rightarrow> [] | Some adjs \<Rightarrow> adjs))))"


text \<open>The distinct elements of a list, each at the place of its first occurrence.\<close>

fun first_seen :: "'a list \<Rightarrow> 'a list" where
  "first_seen [] = []"
| "first_seen (x # xs) = x # first_seen (filter (\<lambda>y. y \<noteq> x) xs)"

text \<open>
  The discount group that an adjustment opens and that the later adjustments of the
  same source have been added to, and an existing group after such additions.
\<close>

definition new_group :: "OrderLine \<Rightarrow> Adjustment \<Rightarrow> Adjustment list \<Rightarrow> Discount" where
  "new_group l a rest =
     \<lparr>Discount.adjustmentSource = Adjustment.adjustmentSource a,
      type = Adjustment.type a,
      description = Adjustment.description a,
      amount =
        foldl num_add (discount_amount l (Adjustment.amount a))
          (map (\<lambda>x. discount_amount l (Adjustment.amount x)) rest),
      amountWithTax =
        foldl num_add (discount_amountWithTax l (Adjustment.amount a))
          (map (\<lambda>x. discount_amountWithTax l (Adjustment.amount x)) rest)\<rparr>"

definition grow_group :: "OrderLine \<Rightarrow> Discount \<Rightarrow> Adjustment list \<Rightarrow> Discount" where
  "grow_group l d later =
     d\<lparr>Discount.amount :=
         foldl num_add (Discount.amount d)
           (map (\<lambda>x. discount_amount l (Adjustment.amount x)) later),
       Discount.amountWithTax :=
         foldl num_add (Discount.amountWithTax d)
           (map (\<lambda>x. discount_amountWithTax l (Adjustment.amount x)) later)\<rparr>"

subsection \<open>Example lines\<close>

text \<open>
  The scenario of the specification: a tax-exclusive list price of 1000 at a tax rate
  of 20, two units, and one promotion of \<open>-200\<close> in total over the two units.
\<close>

definition promotion_P1 :: Adjustment where
  "promotion_P1 =
     \<lparr>Adjustment.adjustmentSource = ''P1'', type = PROMOTION,
      description = ''promotion one'', amount = - 200\<rparr>"

definition line_scenario :: OrderLine where
  "line_scenario =
     \<lparr>quantity = 2, orderPlacedQuantity = 2, initialListPrice = 1000, listPrice = 1000,
      listPriceIncludesTax = False, adjustments = Some [promotion_P1],
      taxLines = [\<lparr>TaxLine.description = ''VAT'', taxRate = 20\<rparr>]\<rparr>"

text \<open>The same line after its quantity has been reduced to one unit.\<close>

definition line_reduced :: OrderLine where
  "line_reduced = line_scenario\<lparr>quantity := 1\<rparr>"

text \<open>The scenario line after all of its units have been removed.\<close>

definition line_emptied :: OrderLine where
  "line_emptied = line_scenario\<lparr>quantity := 0\<rparr>"

text \<open>
  Two lines outside the data model of the specification: a tax-inclusive line whose
  one tax line has the rate \<open>-100\<close>, with two units and with none, and the scenario
  line with a negative quantity that was never placed.
\<close>

definition line_rate_minus_100 :: OrderLine where
  "line_rate_minus_100 =
     \<lparr>quantity = 2, orderPlacedQuantity = 2, initialListPrice = 1000, listPrice = 1000,
      listPriceIncludesTax = True, adjustments = Some [],
      taxLines = [\<lparr>TaxLine.description = ''VAT'', taxRate = - 100\<rparr>]\<rparr>"

definition line_rate_minus_100_emptied :: OrderLine where
  "line_rate_minus_100_emptied = line_rate_minus_100\<lparr>quantity := 0\<rparr>"

definition line_negative_quantity :: OrderLine where
  "line_negative_quantity = line_scenario\<lparr>quantity := - 1, orderPlacedQuantity := 0\<rparr>"

text \<open>
  A line that was never placed and holds no unit, with the promotion still recorded:
  both quantities are \<open>0\<close>.
\<close>

definition line_zero :: OrderLine where
  "line_zero =
     \<lparr>quantity = 0, orderPlacedQuantity = 0, initialListPrice = 1000, listPrice = 1000,
      listPriceIncludesTax = False, adjustments = Some [promotion_P1],
      taxLines = [\<lparr>TaxLine.description = ''VAT'', taxRate = 20\<rparr>]\<rparr>"

text \<open>The scenario line built from a partial input with no adjustment list.\<close>

definition line_absent :: OrderLine where
  "line_absent = line_scenario\<lparr>adjustments := None\<rparr>"

text \<open>
  A tax-inclusive line with three adjustments, the first and the last from the same
  source but of different type and description.
\<close>

definition promotion_O7 :: Adjustment where
  "promotion_O7 =
     \<lparr>Adjustment.adjustmentSource = ''O7'', type = DISTRIBUTED_ORDER_PROMOTION,
      description = ''order promotion'', amount = - 60\<rparr>"

definition correction_P1 :: Adjustment where
  "correction_P1 =
     \<lparr>Adjustment.adjustmentSource = ''P1'', type = OTHER,
      description = ''second entry'', amount = - 120\<rparr>"

definition line_grouped :: OrderLine where
  "line_grouped =
     \<lparr>quantity = 2, orderPlacedQuantity = 2, initialListPrice = 1200, listPrice = 1200,
      listPriceIncludesTax = True,
      adjustments = Some [promotion_P1, promotion_O7, correction_P1],
      taxLines = [\<lparr>TaxLine.description = ''VAT'', taxRate = 20\<rparr>]\<rparr>"


section \<open>Properties\<close>

subsection \<open>Arithmetic of numbers\<close>

lemma is_finite_iff: "is_finite x \<longleftrightarrow> (\<exists>a. x = Fin a)"
  by (cases x) (simp_all add: is_finite_def)

lemma is_finite_Fin: "is_finite (Fin a)"
  by (simp add: is_finite_def)

lemma is_finite_num_of_int: "is_finite (num_of_int i)"
  by (simp add: num_of_int_def is_finite_def)

lemma num_add_zero_left: "num_add (Fin 0) x = x"
  by (cases x) simp_all

lemma is_finite_num_add: "is_finite x \<Longrightarrow> is_finite y \<Longrightarrow> is_finite (num_add x y)"
  by (auto simp: is_finite_iff)

lemma is_finite_num_mul: "is_finite x \<Longrightarrow> is_finite y \<Longrightarrow> is_finite (num_mul x y)"
  by (auto simp: is_finite_iff)

lemma is_finite_Math_round: "is_finite x \<Longrightarrow> is_finite (Math_round x)"
  by (auto simp: is_finite_iff)

lemma is_finite_num_div: "is_finite x \<Longrightarrow> b \<noteq> 0 \<Longrightarrow> is_finite (num_div x (Fin b))"
  by (auto simp: is_finite_iff)

lemma foldl_num_add_finite:
  "is_finite acc \<Longrightarrow> \<forall>x\<in>set xs. is_finite x \<Longrightarrow> is_finite (foldl num_add acc xs)"
  by (induction xs arbitrary: acc) (simp_all add: is_finite_num_add)

lemma is_finite_num_sum: "\<forall>x\<in>set xs. is_finite x \<Longrightarrow> is_finite (num_sum xs)"
  unfolding num_sum_def by (rule foldl_num_add_finite) (simp_all add: is_finite_Fin)

lemma tax_factor_nonzero: "r \<noteq> - 100 \<Longrightarrow> 1 + r / 100 \<noteq> (0::rat)"
proof
  assume r: "r \<noteq> - 100" and z: "1 + r / 100 = 0"
  from z have "r / 100 = - 1" by linarith
  then have "r = - 100" by simp
  with r show False by simp
qed


subsection \<open>Integer figures\<close>

text \<open>
  On a line of the data model every unit figure is an integer: the list price is one,
  \<^verbatim>\<open>Math.round\<close> returns one on a finite number, and sums and differences of
  integers are integers. Integer arithmetic is exact in the code as it is here.
\<close>

lemma num_of_int_add: "num_add (num_of_int a) (num_of_int b) = num_of_int (a + b)"
  by (simp add: num_of_int_def)

lemma num_of_int_sub: "num_sub (num_of_int b) (num_of_int a) = num_of_int (b - a)"
  by (simp add: num_of_int_def num_sub_def)

lemma Math_round_integer: "is_finite x \<Longrightarrow> \<exists>n. Math_round x = num_of_int n"
  by (auto simp: is_finite_iff num_of_int_def)

lemma netPriceOf_integer:
  "is_finite x \<Longrightarrow> r \<noteq> - 100 \<Longrightarrow> \<exists>n. netPriceOf x r = num_of_int n"
  unfolding netPriceOf_def
  by (intro Math_round_integer is_finite_num_div tax_factor_nonzero)

lemma grossPriceOf_integer: "is_finite x \<Longrightarrow> \<exists>n. grossPriceOf x r = num_of_int n"
  unfolding grossPriceOf_def
  by (intro Math_round_integer is_finite_num_mul is_finite_Fin)

lemma getAdjustmentsTotal_integer:
  assumes "0 \<le> quantity l"
  shows "\<exists>n. getAdjustmentsTotal l ty = num_of_int n"
proof (cases "adjustments l")
  case None
  then have "getAdjustmentsTotal l ty = num_of_int 0"
    by (simp add: getAdjustmentsTotal_def num_of_int_def)
  then show ?thesis ..
next
  case (Some adjs)
  show ?thesis
  proof (cases "quantity l = 0")
    case True
    with Some have "getAdjustmentsTotal l ty = num_of_int 0"
      by (simp add: getAdjustmentsTotal_def num_of_int_def)
    then show ?thesis ..
  next
    case False
    with assms have "0 < max (orderPlacedQuantity l) (quantity l)" by simp
    then have nz: "(of_int (max (orderPlacedQuantity l) (quantity l)) :: rat) \<noteq> 0" by simp
    have "is_finite (num_sum (map (\<lambda>adjustment.
                            num_div (Fin (Adjustment.amount adjustment))
                              (num_of_int (max (orderPlacedQuantity l) (quantity l))))
                       (filter (type_selected ty) adjs)))"
      by (rule is_finite_num_sum) (use nz in \<open>auto simp: num_of_int_def is_finite_def\<close>)
    from Math_round_integer[OF this] Some False show ?thesis
      by (simp add: getAdjustmentsTotal_def)
  qed
qed

lemma unitPrice_integer:
  "listPriceIncludesTax l \<longrightarrow> taxRate l \<noteq> - 100 \<Longrightarrow> \<exists>n. unitPrice l = num_of_int n"
  by (auto simp: unitPrice_def intro: netPriceOf_integer is_finite_num_of_int)

lemma unitPriceWithTax_integer: "\<exists>n. unitPriceWithTax l = num_of_int n"
  by (auto simp: unitPriceWithTax_def intro: grossPriceOf_integer is_finite_num_of_int)

lemma list_price_plus_total_integer:
  "0 \<le> quantity l \<Longrightarrow>
     \<exists>n. num_add (num_of_int (listPrice l)) (getAdjustmentsTotal l ty) = num_of_int n"
  using getAdjustmentsTotal_integer[of l ty] by (auto simp: num_of_int_add)

lemma discountedUnitPrice_integer:
  assumes "0 \<le> quantity l" and "listPriceIncludesTax l \<longrightarrow> taxRate l \<noteq> - 100"
  shows "\<exists>n. discountedUnitPrice l = num_of_int n"
proof -
  from list_price_plus_total_integer[OF assms(1), of "Some PROMOTION"] obtain k
    where k: "num_add (num_of_int (listPrice l)) (getAdjustmentsTotal l (Some PROMOTION))
                = num_of_int k" ..
  show ?thesis
  proof (cases "listPriceIncludesTax l")
    case True
    with assms(2) have "taxRate l \<noteq> - 100" by simp
    from netPriceOf_integer[OF is_finite_num_of_int this, of k] True k show ?thesis
      by (simp add: discountedUnitPrice_def)
  next
    case False
    with k show ?thesis by (auto simp: discountedUnitPrice_def)
  qed
qed

lemma discountedUnitPriceWithTax_integer:
  assumes "0 \<le> quantity l"
  shows "\<exists>n. discountedUnitPriceWithTax l = num_of_int n"
proof -
  from list_price_plus_total_integer[OF assms, of "Some PROMOTION"] obtain k
    where k: "num_add (num_of_int (listPrice l)) (getAdjustmentsTotal l (Some PROMOTION))
                = num_of_int k" ..
  show ?thesis
  proof (cases "listPriceIncludesTax l")
    case True
    with k show ?thesis by (auto simp: discountedUnitPriceWithTax_def)
  next
    case False
    from grossPriceOf_integer[OF is_finite_num_of_int, of k] False k show ?thesis
      by (simp add: discountedUnitPriceWithTax_def)
  qed
qed

lemma proratedUnitPrice_integer:
  assumes "0 \<le> quantity l" and "listPriceIncludesTax l \<longrightarrow> taxRate l \<noteq> - 100"
  shows "\<exists>n. proratedUnitPrice l = num_of_int n"
proof -
  from list_price_plus_total_integer[OF assms(1), of None] obtain k
    where k: "num_add (num_of_int (listPrice l)) (getAdjustmentsTotal l None) = num_of_int k" ..
  show ?thesis
  proof (cases "listPriceIncludesTax l")
    case True
    with assms(2) have "taxRate l \<noteq> - 100" by simp
    from netPriceOf_integer[OF is_finite_num_of_int this, of k] True k show ?thesis
      by (simp add: proratedUnitPrice_def)
  next
    case False
    with k show ?thesis by (auto simp: proratedUnitPrice_def)
  qed
qed

lemma proratedUnitPriceWithTax_integer:
  assumes "0 \<le> quantity l"
  shows "\<exists>n. proratedUnitPriceWithTax l = num_of_int n"
proof -
  from list_price_plus_total_integer[OF assms, of None] obtain k
    where k: "num_add (num_of_int (listPrice l)) (getAdjustmentsTotal l None) = num_of_int k" ..
  show ?thesis
  proof (cases "listPriceIncludesTax l")
    case True
    with k show ?thesis by (auto simp: proratedUnitPriceWithTax_def)
  next
    case False
    from grossPriceOf_integer[OF is_finite_num_of_int, of k] False k show ?thesis
      by (simp add: proratedUnitPriceWithTax_def)
  qed
qed

lemma integer_plus_difference:
  "num_add (num_of_int a) (num_sub (num_of_int b) (num_of_int a)) = num_of_int b"
  by (simp add: num_of_int_def num_sub_def)

lemma num_mul_Fin_int: "x = Fin u \<Longrightarrow> num_mul x (num_of_int q) = Fin (u * of_int q)"
  by (simp add: num_of_int_def)

subsection \<open>Unit prices and unit tax\<close>

text \<open>
  Claim C2, as stated, for any quantity and any tax lines: the unit price and the unit
  tax add up to the unit price with tax, and likewise the prorated figures. It fails
  where a division by zero makes a price infinite. On \<open>line_rate_minus_100\<close> the net
  price divides by \<open>1 + (-100)/100 = 0\<close>: the unit price is \<open>Infinity\<close>, the unit tax
  \<open>-Infinity\<close>, and their sum \<open>NaN\<close>, not 1000. On \<open>line_negative_quantity\<close> the
  adjustment total divides by \<open>max(0, -1) = 0\<close>: the prorated unit price and the
  prorated unit price with tax are \<open>-Infinity\<close>, the prorated unit tax is \<open>NaN\<close>, and so
  is the sum.
\<close>

theorem unit_price_plus_unit_tax_fails_outside_the_data_model:
  "listPriceIncludesTax line_rate_minus_100 \<and> taxRate line_rate_minus_100 = - 100
   \<and> unitPrice line_rate_minus_100 = PInf
   \<and> unitTax line_rate_minus_100 = NInf
   \<and> unitPriceWithTax line_rate_minus_100 = Fin 1000
   \<and> num_add (unitPrice line_rate_minus_100) (unitTax line_rate_minus_100) = NaN
   \<and> num_add (unitPrice line_rate_minus_100) (unitTax line_rate_minus_100)
       \<noteq> unitPriceWithTax line_rate_minus_100
   \<and> quantity line_negative_quantity = - 1
   \<and> orderPlacedQuantity line_negative_quantity = 0
   \<and> proratedUnitPrice line_negative_quantity = NInf
   \<and> proratedUnitTax line_negative_quantity = NaN
   \<and> proratedUnitPriceWithTax line_negative_quantity = NInf
   \<and> num_add (proratedUnitPrice line_negative_quantity)
         (proratedUnitTax line_negative_quantity)
       \<noteq> proratedUnitPriceWithTax line_negative_quantity"
  by code_simp

text \<open>
  Claim C2, amended: on a line whose quantity is not negative and whose aggregate tax
  rate is not \<open>-100\<close> when the list price includes tax, the unit price and the unit
  price with tax are integers \<open>a\<close> and \<open>b\<close>, the unit tax is \<open>b - a\<close>, and the unit price
  plus the unit tax is the unit price with tax exactly; likewise for the prorated unit
  price, the prorated unit price with tax and the prorated unit tax.
\<close>

theorem unit_price_plus_unit_tax:
  assumes "0 \<le> quantity l" and "listPriceIncludesTax l \<longrightarrow> taxRate l \<noteq> - 100"
  shows "\<exists>a b p q.
           unitPrice l = num_of_int a \<and> unitPriceWithTax l = num_of_int b
           \<and> unitTax l = num_of_int (b - a)
           \<and> num_add (unitPrice l) (unitTax l) = unitPriceWithTax l
           \<and> proratedUnitPrice l = num_of_int p \<and> proratedUnitPriceWithTax l = num_of_int q
           \<and> proratedUnitTax l = num_of_int (q - p)
           \<and> num_add (proratedUnitPrice l) (proratedUnitTax l) = proratedUnitPriceWithTax l"
proof -
  from unitPrice_integer[OF assms(2)] obtain a where a: "unitPrice l = num_of_int a" ..
  from unitPriceWithTax_integer obtain b where b: "unitPriceWithTax l = num_of_int b" ..
  from proratedUnitPrice_integer[OF assms] obtain p
    where p: "proratedUnitPrice l = num_of_int p" ..
  from proratedUnitPriceWithTax_integer[OF assms(1)] obtain q
    where q: "proratedUnitPriceWithTax l = num_of_int q" ..
  have t: "unitTax l = num_of_int (b - a)"
    by (simp only: unitTax_def a b num_of_int_sub)
  have pt: "proratedUnitTax l = num_of_int (q - p)"
    by (simp only: proratedUnitTax_def p q num_of_int_sub)
  have s: "num_add (unitPrice l) (unitTax l) = unitPriceWithTax l"
    by (simp only: unitTax_def a b integer_plus_difference)
  have ps: "num_add (proratedUnitPrice l) (proratedUnitTax l) = proratedUnitPriceWithTax l"
    by (simp only: proratedUnitTax_def p q integer_plus_difference)
  from a b t s p q pt ps show ?thesis by blast
qed

theorem unit_price_plus_unit_tax_witness:
  "0 \<le> quantity line_grouped
   \<and> listPriceIncludesTax line_grouped \<and> taxRate line_grouped \<noteq> - 100
   \<and> unitPrice line_grouped = Fin 1000 \<and> unitPriceWithTax line_grouped = Fin 1200
   \<and> unitTax line_grouped = Fin 200
   \<and> num_add (unitPrice line_grouped) (unitTax line_grouped) = unitPriceWithTax line_grouped
   \<and> proratedUnitPrice line_grouped = Fin 842
   \<and> proratedUnitPriceWithTax line_grouped = Fin 1010
   \<and> proratedUnitTax line_grouped = Fin 168
   \<and> num_add (proratedUnitPrice line_grouped) (proratedUnitTax line_grouped)
       = proratedUnitPriceWithTax line_grouped"
proof -
  have h1: "0 \<le> quantity line_grouped" by (simp add: line_grouped_def)
  have i: "listPriceIncludesTax line_grouped" by (simp add: line_grouped_def)
  have r: "taxRate line_grouped \<noteq> - 100"
    by (simp add: line_grouped_def taxRate_def summate_def)
  then have h2: "listPriceIncludesTax line_grouped \<longrightarrow> taxRate line_grouped \<noteq> - 100" by simp
  have v: "unitPrice line_grouped = Fin 1000" "unitPriceWithTax line_grouped = Fin 1200"
          "proratedUnitPrice line_grouped = Fin 842"
          "proratedUnitPriceWithTax line_grouped = Fin 1010"
    by code_simp+
  from unit_price_plus_unit_tax[OF h1 h2] obtain a b p q
    where a: "unitPrice line_grouped = num_of_int a"
      and b: "unitPriceWithTax line_grouped = num_of_int b"
      and t: "unitTax line_grouped = num_of_int (b - a)"
      and s: "num_add (unitPrice line_grouped) (unitTax line_grouped)
                = unitPriceWithTax line_grouped"
      and p: "proratedUnitPrice line_grouped = num_of_int p"
      and q: "proratedUnitPriceWithTax line_grouped = num_of_int q"
      and pt: "proratedUnitTax line_grouped = num_of_int (q - p)"
      and ps: "num_add (proratedUnitPrice line_grouped) (proratedUnitTax line_grouped)
                = proratedUnitPriceWithTax line_grouped"
    by blast
  from a b v have "a = 1000" "b = 1200" by (simp_all add: num_of_int_def)
  with t have t': "unitTax line_grouped = Fin 200" by (simp add: num_of_int_def)
  from p q v have "p = 842" "q = 1010" by (simp_all add: num_of_int_def)
  with pt have pt': "proratedUnitTax line_grouped = Fin 168" by (simp add: num_of_int_def)
  from h1 i r v t' s pt' ps show ?thesis by (intro conjI)
qed

subsection \<open>Line figures\<close>

text \<open>
  Claim C3, as stated, has every one of the line price, the discounted line price, the
  prorated line price and the line tax equal to \<open>0\<close> on a line of quantity \<open>0\<close>. It
  fails where a unit figure is infinite: on \<open>line_rate_minus_100_emptied\<close> the unit
  price is \<open>Infinity\<close>, and \<open>Infinity * 0\<close> is \<open>NaN\<close>; all four line figures are
  \<open>NaN\<close>.
\<close>

theorem line_figures_at_zero_quantity_and_rate_minus_100:
  "quantity line_rate_minus_100_emptied = 0
   \<and> listPriceIncludesTax line_rate_minus_100_emptied
   \<and> taxRate line_rate_minus_100_emptied = - 100
   \<and> unitPrice line_rate_minus_100_emptied = PInf
   \<and> linePrice line_rate_minus_100_emptied = NaN
   \<and> discountedLinePrice line_rate_minus_100_emptied = NaN
   \<and> proratedLinePrice line_rate_minus_100_emptied = NaN
   \<and> lineTax line_rate_minus_100_emptied = NaN
   \<and> linePrice line_rate_minus_100_emptied \<noteq> Fin 0"
  by code_simp

text \<open>
  Claim C3, amended: each of the eight line figures is its unit figure multiplied by
  the quantity, which for a finite unit figure \<open>u\<close> is the number \<open>u * quantity\<close>. On a
  line of quantity \<open>0\<close> whose aggregate tax rate is not \<open>-100\<close> when the list price
  includes tax, the line price, the discounted line price, the prorated line price and
  the line tax are \<open>0\<close>.
\<close>

theorem line_figure_is_unit_figure_times_quantity:
  "linePrice l = num_mul (unitPrice l) (num_of_int (quantity l))
   \<and> linePriceWithTax l = num_mul (unitPriceWithTax l) (num_of_int (quantity l))
   \<and> discountedLinePrice l = num_mul (discountedUnitPrice l) (num_of_int (quantity l))
   \<and> discountedLinePriceWithTax l
       = num_mul (discountedUnitPriceWithTax l) (num_of_int (quantity l))
   \<and> proratedLinePrice l = num_mul (proratedUnitPrice l) (num_of_int (quantity l))
   \<and> proratedLinePriceWithTax l
       = num_mul (proratedUnitPriceWithTax l) (num_of_int (quantity l))
   \<and> lineTax l = num_mul (unitTax l) (num_of_int (quantity l))
   \<and> proratedLineTax l = num_mul (proratedUnitTax l) (num_of_int (quantity l))
   \<and> (\<forall>u. unitPrice l = Fin u \<longrightarrow> linePrice l = Fin (u * of_int (quantity l)))
   \<and> (\<forall>u. unitPriceWithTax l = Fin u \<longrightarrow>
          linePriceWithTax l = Fin (u * of_int (quantity l)))
   \<and> (\<forall>u. discountedUnitPrice l = Fin u \<longrightarrow>
          discountedLinePrice l = Fin (u * of_int (quantity l)))
   \<and> (\<forall>u. discountedUnitPriceWithTax l = Fin u \<longrightarrow>
          discountedLinePriceWithTax l = Fin (u * of_int (quantity l)))
   \<and> (\<forall>u. proratedUnitPrice l = Fin u \<longrightarrow>
          proratedLinePrice l = Fin (u * of_int (quantity l)))
   \<and> (\<forall>u. proratedUnitPriceWithTax l = Fin u \<longrightarrow>
          proratedLinePriceWithTax l = Fin (u * of_int (quantity l)))
   \<and> (\<forall>u. unitTax l = Fin u \<longrightarrow> lineTax l = Fin (u * of_int (quantity l)))
   \<and> (\<forall>u. proratedUnitTax l = Fin u \<longrightarrow>
          proratedLineTax l = Fin (u * of_int (quantity l)))
   \<and> (quantity l = 0 \<and> (listPriceIncludesTax l \<longrightarrow> taxRate l \<noteq> - 100) \<longrightarrow>
        linePrice l = Fin 0 \<and> discountedLinePrice l = Fin 0
        \<and> proratedLinePrice l = Fin 0 \<and> lineTax l = Fin 0)"
proof -
  have zero: "linePrice l = Fin 0 \<and> discountedLinePrice l = Fin 0
        \<and> proratedLinePrice l = Fin 0 \<and> lineTax l = Fin 0"
    if q: "quantity l = 0" and r: "listPriceIncludesTax l \<longrightarrow> taxRate l \<noteq> - 100"
  proof -
    from q have q0: "0 \<le> quantity l" by simp
    from unitPrice_integer[OF r] obtain a where a: "unitPrice l = num_of_int a" ..
    from unitPriceWithTax_integer obtain b where b: "unitPriceWithTax l = num_of_int b" ..
    from discountedUnitPrice_integer[OF q0 r] obtain d
      where d: "discountedUnitPrice l = num_of_int d" ..
    from proratedUnitPrice_integer[OF q0 r] obtain p
      where p: "proratedUnitPrice l = num_of_int p" ..
    have t: "unitTax l = num_of_int (b - a)"
      by (simp only: unitTax_def a b num_of_int_sub)
    show ?thesis
      unfolding linePrice_def discountedLinePrice_def proratedLinePrice_def lineTax_def
        a d p t q
      by (simp add: num_of_int_def)
  qed
  show ?thesis
  proof (intro conjI impI allI)
    assume "quantity l = 0 \<and> (listPriceIncludesTax l \<longrightarrow> taxRate l \<noteq> - 100)"
    then have z: "linePrice l = Fin 0 \<and> discountedLinePrice l = Fin 0
        \<and> proratedLinePrice l = Fin 0 \<and> lineTax l = Fin 0"
      using zero by blast
    from z show "linePrice l = Fin 0" by blast
    from z show "discountedLinePrice l = Fin 0" by blast
    from z show "proratedLinePrice l = Fin 0" by blast
    from z show "lineTax l = Fin 0" by blast
  qed (simp_all only: linePrice_def linePriceWithTax_def discountedLinePrice_def
        discountedLinePriceWithTax_def proratedLinePrice_def proratedLinePriceWithTax_def
        lineTax_def proratedLineTax_def num_mul_Fin_int)
qed

theorem line_figure_is_unit_figure_times_quantity_witness:
  "quantity line_grouped = 2
   \<and> unitPrice line_grouped = Fin 1000 \<and> linePrice line_grouped = Fin 2000
   \<and> discountedUnitPrice line_grouped = Fin 917 \<and> discountedLinePrice line_grouped = Fin 1834
   \<and> proratedUnitPriceWithTax line_grouped = Fin 1010
   \<and> proratedLinePriceWithTax line_grouped = Fin 2020
   \<and> unitTax line_grouped = Fin 200 \<and> lineTax line_grouped = Fin 400
   \<and> quantity (line_grouped\<lparr>quantity := 0\<rparr>) = 0
   \<and> listPriceIncludesTax (line_grouped\<lparr>quantity := 0\<rparr>)
   \<and> taxRate (line_grouped\<lparr>quantity := 0\<rparr>) \<noteq> - 100
   \<and> unitPrice (line_grouped\<lparr>quantity := 0\<rparr>) = Fin 1000
   \<and> linePrice (line_grouped\<lparr>quantity := 0\<rparr>) = Fin 0
   \<and> discountedLinePrice (line_grouped\<lparr>quantity := 0\<rparr>) = Fin 0
   \<and> proratedLinePrice (line_grouped\<lparr>quantity := 0\<rparr>) = Fin 0
   \<and> lineTax (line_grouped\<lparr>quantity := 0\<rparr>) = Fin 0"
proof -
  have q: "quantity line_grouped = 2" by (simp add: line_grouped_def)
  have v: "unitPrice line_grouped = Fin 1000" "discountedUnitPrice line_grouped = Fin 917"
          "proratedUnitPriceWithTax line_grouped = Fin 1010" "unitTax line_grouped = Fin 200"
    by code_simp+
  note th = line_figure_is_unit_figure_times_quantity[of line_grouped]
  from th v(1) have "linePrice line_grouped = Fin (1000 * of_int (quantity line_grouped))"
    by blast
  then have l1: "linePrice line_grouped = Fin 2000" by (simp add: q)
  from th v(2)
  have "discountedLinePrice line_grouped = Fin (917 * of_int (quantity line_grouped))"
    by blast
  then have l2: "discountedLinePrice line_grouped = Fin 1834" by (simp add: q)
  from th v(3)
  have "proratedLinePriceWithTax line_grouped = Fin (1010 * of_int (quantity line_grouped))"
    by blast
  then have l3: "proratedLinePriceWithTax line_grouped = Fin 2020" by (simp add: q)
  from th v(4) have "lineTax line_grouped = Fin (200 * of_int (quantity line_grouped))"
    by blast
  then have l4: "lineTax line_grouped = Fin 400" by (simp add: q)
  let ?e = "line_grouped\<lparr>quantity := 0\<rparr>"
  have h: "quantity ?e = 0" by simp
  have i: "listPriceIncludesTax ?e" by (simp add: line_grouped_def)
  have r: "taxRate ?e \<noteq> - 100" by (simp add: line_grouped_def taxRate_def summate_def)
  have u: "unitPrice ?e = Fin 1000" by code_simp
  from line_figure_is_unit_figure_times_quantity[of ?e] h r
  have z: "linePrice ?e = Fin 0 \<and> discountedLinePrice ?e = Fin 0
        \<and> proratedLinePrice ?e = Fin 0 \<and> lineTax ?e = Fin 0"
    by blast
  from q v l1 l2 l3 l4 h i r u z show ?thesis by (intro conjI) blast+
qed

subsection \<open>Clearing adjustments\<close>

lemma count_list_filter_type:
  "count_list (filter P xs) a = (if P a then count_list xs a else 0)"
  by (induction xs) auto

lemma Math_round_zero: "Math_round (Fin 0) = Fin 0"
proof -
  have "\<lfloor>(1 / 2 :: rat)\<rfloor> = 0" by (rule floor_unique) simp_all
  then show ?thesis by simp
qed

text \<open>
  Claim C7. \<open>clearAdjustments\<close> with no type leaves the empty sequence. With a type
  \<open>T\<close> it leaves the adjustments whose type is not \<open>T\<close>: a subsequence of the
  original one, so in the original relative order, in which an adjustment of type \<open>T\<close>
  does not occur and any other adjustment occurs as often as before. Clearing twice
  gives the line that clearing once gives. On an absent or empty sequence both forms
  return a line with the empty sequence, and no other column of the line changes.
\<close>

theorem clearAdjustments_behaviour:
  "adjustments (clearAdjustments l None) = Some []
   \<and> (adjustments l = Some adjs \<longrightarrow>
        (\<exists>remaining.
           adjustments (clearAdjustments l (Some T)) = Some remaining
           \<and> remaining = filter (\<lambda>a. Adjustment.type a \<noteq> T) adjs
           \<and> subseq remaining adjs
           \<and> (\<forall>a. count_list remaining a
                    = (if Adjustment.type a = T then 0 else count_list adjs a))))
   \<and> clearAdjustments (clearAdjustments l (Some T)) (Some T) = clearAdjustments l (Some T)
   \<and> clearAdjustments (clearAdjustments l None) None = clearAdjustments l None
   \<and> (adjustments l = None \<or> adjustments l = Some [] \<longrightarrow>
        adjustments (clearAdjustments l ty) = Some [])
   \<and> clearAdjustments l ty = l\<lparr>adjustments := adjustments (clearAdjustments l ty)\<rparr>"
proof (intro conjI impI)
  show "adjustments (clearAdjustments l None) = Some []"
    by (simp add: clearAdjustments_def)
next
  assume "adjustments l = Some adjs"
  then have "adjustments (clearAdjustments l (Some T))
      = Some (filter (\<lambda>a. Adjustment.type a \<noteq> T) adjs)"
    by (simp add: clearAdjustments_def)
  then show "\<exists>remaining.
           adjustments (clearAdjustments l (Some T)) = Some remaining
           \<and> remaining = filter (\<lambda>a. Adjustment.type a \<noteq> T) adjs
           \<and> subseq remaining adjs
           \<and> (\<forall>a. count_list remaining a
                    = (if Adjustment.type a = T then 0 else count_list adjs a))"
    by (simp add: count_list_filter_type)
next
  show "clearAdjustments (clearAdjustments l (Some T)) (Some T) = clearAdjustments l (Some T)"
    by (cases "adjustments l") (simp_all add: clearAdjustments_def)
next
  show "clearAdjustments (clearAdjustments l None) None = clearAdjustments l None"
    by (simp add: clearAdjustments_def)
next
  assume "adjustments l = None \<or> adjustments l = Some []"
  then show "adjustments (clearAdjustments l ty) = Some []"
    by (cases ty) (auto simp: clearAdjustments_def)
next
  show "clearAdjustments l ty = l\<lparr>adjustments := adjustments (clearAdjustments l ty)\<rparr>"
    by (cases ty) (simp_all add: clearAdjustments_def)
qed

theorem clearAdjustments_behaviour_witness:
  "adjustments line_grouped = Some [promotion_P1, promotion_O7, correction_P1]
   \<and> adjustments (clearAdjustments line_grouped (Some PROMOTION))
       = Some [promotion_O7, correction_P1]
   \<and> adjustments (clearAdjustments (line_grouped\<lparr>adjustments := None\<rparr>) (Some PROMOTION))
       = Some []"
proof -
  have h: "adjustments line_grouped = Some [promotion_P1, promotion_O7, correction_P1]"
    by (simp add: line_grouped_def)
  have n: "adjustments (line_grouped\<lparr>adjustments := None\<rparr>) = None
           \<or> adjustments (line_grouped\<lparr>adjustments := None\<rparr>) = Some []" by simp
  from clearAdjustments_behaviour
         [of line_grouped "[promotion_P1, promotion_O7, correction_P1]" PROMOTION] h
  have "adjustments (clearAdjustments line_grouped (Some PROMOTION))
      = Some (filter (\<lambda>a. Adjustment.type a \<noteq> PROMOTION)
                [promotion_P1, promotion_O7, correction_P1])" by simp
  then have c: "adjustments (clearAdjustments line_grouped (Some PROMOTION))
      = Some [promotion_O7, correction_P1]"
    by (simp add: promotion_P1_def promotion_O7_def correction_P1_def)
  from clearAdjustments_behaviour
         [of "line_grouped\<lparr>adjustments := None\<rparr>" _ _ "Some PROMOTION"] n
  have "adjustments (clearAdjustments (line_grouped\<lparr>adjustments := None\<rparr>) (Some PROMOTION))
       = Some []" by blast
  with h c show ?thesis by simp
qed

text \<open>
  Claim C8. On a line whose adjustment sequence is empty the discounted and the
  prorated unit price are the unit price, with tax and without, and there are no
  discounts. \<open>clearAdjustments\<close> with no type returns the line with the empty sequence
  in place of its adjustments and every other column as it was, which is the
  otherwise-identical line that never had an adjustment: every member reads on the one
  what it reads on the other, and the five figures are those of the line itself.
\<close>

theorem empty_adjustments_are_neutral:
  "(adjustments l = Some [] \<longrightarrow>
      discountedUnitPrice l = unitPrice l \<and> proratedUnitPrice l = unitPrice l
      \<and> discountedUnitPriceWithTax l = unitPriceWithTax l
      \<and> proratedUnitPriceWithTax l = unitPriceWithTax l
      \<and> discounts l = Inr [])
   \<and> clearAdjustments l None = l\<lparr>adjustments := Some []\<rparr>
   \<and> discountedUnitPrice (clearAdjustments l None) = unitPrice l
   \<and> proratedUnitPrice (clearAdjustments l None) = unitPrice l
   \<and> discountedUnitPriceWithTax (clearAdjustments l None) = unitPriceWithTax l
   \<and> proratedUnitPriceWithTax (clearAdjustments l None) = unitPriceWithTax l
   \<and> discounts (clearAdjustments l None) = Inr []"
proof -
  have total: "getAdjustmentsTotal k ty = Fin 0" if "adjustments k = Some []" for k ty
    using that by (simp add: getAdjustmentsTotal_def num_sum_def Math_round_zero del: Math_round.simps)
  have neutral: "discountedUnitPrice k = unitPrice k \<and> proratedUnitPrice k = unitPrice k
      \<and> discountedUnitPriceWithTax k = unitPriceWithTax k
      \<and> proratedUnitPriceWithTax k = unitPriceWithTax k
      \<and> discounts k = Inr []" if e: "adjustments k = Some []" for k
    by (simp add: discountedUnitPrice_def proratedUnitPrice_def discountedUnitPriceWithTax_def
        proratedUnitPriceWithTax_def unitPrice_def unitPriceWithTax_def total[OF e]
        num_of_int_def discounts_def e Map_values_def)
  have c: "clearAdjustments l None = l\<lparr>adjustments := Some []\<rparr>"
    by (simp add: clearAdjustments_def)
  have same: "unitPrice (l\<lparr>adjustments := Some []\<rparr>) = unitPrice l
      \<and> unitPriceWithTax (l\<lparr>adjustments := Some []\<rparr>) = unitPriceWithTax l"
    by (simp add: unitPrice_def unitPriceWithTax_def taxRate_def)
  have "adjustments (l\<lparr>adjustments := Some []\<rparr>) = Some []" by simp
  from neutral[OF this] same c neutral show ?thesis by simp
qed

theorem empty_adjustments_are_neutral_witness:
  "adjustments (line_scenario\<lparr>adjustments := Some []\<rparr>) = Some []
   \<and> discountedUnitPrice (line_scenario\<lparr>adjustments := Some []\<rparr>) = Fin 1000
   \<and> proratedUnitPrice (line_scenario\<lparr>adjustments := Some []\<rparr>) = Fin 1000
   \<and> discountedUnitPriceWithTax (line_scenario\<lparr>adjustments := Some []\<rparr>) = Fin 1200
   \<and> discounts (line_scenario\<lparr>adjustments := Some []\<rparr>) = Inr []"
proof -
  have h: "adjustments (line_scenario\<lparr>adjustments := Some []\<rparr>) = Some []" by simp
  have u: "unitPrice (line_scenario\<lparr>adjustments := Some []\<rparr>) = Fin 1000
         \<and> unitPriceWithTax (line_scenario\<lparr>adjustments := Some []\<rparr>) = Fin 1200"
    by code_simp
  from empty_adjustments_are_neutral[of "line_scenario\<lparr>adjustments := Some []\<rparr>"] h u
  show ?thesis by simp
qed

subsection \<open>The discount groups\<close>

text \<open>
  The loop of \<open>discounts\<close> is followed through two invariants, for any map that the
  loop may start from: the keys of the result are the keys of the start followed by the
  new sources in first-seen order, and the value under a key is the start value grown
  by the later adjustments of that source, or the group opened by the first of them.
\<close>

lemma set_first_seen: "set (first_seen xs) = set xs"
  by (induction xs rule: first_seen.induct) auto

lemma distinct_first_seen: "distinct (first_seen xs)"
  by (induction xs rule: first_seen.induct) (auto simp: set_first_seen)

lemma Map_get_None_iff: "Map_get m k = None \<longleftrightarrow> k \<notin> set (map fst m)"
  by (induction m k rule: Map_get.induct) auto

lemma keys_Map_set:
  "map fst (Map_set m k v) = (if k \<in> set (map fst m) then map fst m else map fst m @ [k])"
proof (induction m k v rule: Map_set.induct)
  case (1 k v)
  show ?case by simp
next
  case (2 k' v' m k v)
  show ?case
  proof (cases "k' = k")
    case True
    then show ?thesis by simp
  next
    case False
    with 2 show ?thesis by (cases "k \<in> set (map fst m)") auto
  qed
qed

lemma Map_get_Map_set: "Map_get (Map_set m k v) k' = (if k' = k then Some v else Map_get m k')"
  by (induction m k v rule: Map_set.induct) auto

lemma Map_get_distinct:
  "distinct (map fst m) \<Longrightarrow> (k, v) \<in> set m \<Longrightarrow> Map_get m k = Some v"
  by (induction m) (auto simp: rev_image_eqI)

lemma keys_discounts_step:
  "map fst (discounts_step l m a) =
     (if Adjustment.adjustmentSource a \<in> set (map fst m) then map fst m
      else map fst m @ [Adjustment.adjustmentSource a])"
  by (cases "Map_get m (Adjustment.adjustmentSource a)")
     (simp_all add: discounts_step_def Let_def keys_Map_set)

lemma grow_group_Nil: "grow_group l d [] = d"
  by (simp add: grow_group_def)

lemma grow_group_Cons:
  "grow_group l d (a # later) =
     grow_group l
       (d\<lparr>Discount.amount :=
            num_add (Discount.amount d) (discount_amount l (Adjustment.amount a)),
          Discount.amountWithTax :=
            num_add (Discount.amountWithTax d)
              (discount_amountWithTax l (Adjustment.amount a))\<rparr>) later"
  by (simp add: grow_group_def)

lemma grow_new_group: "grow_group l (new_group l a []) later = new_group l a later"
  by (simp add: grow_group_def new_group_def)

lemma Map_get_discounts_step:
  "Map_get (discounts_step l m a) k =
     (if k = Adjustment.adjustmentSource a
      then Some (case Map_get m k of
                   Some d \<Rightarrow> grow_group l d [a]
                 | None \<Rightarrow> new_group l a [])
      else Map_get m k)"
  by (cases "Map_get m (Adjustment.adjustmentSource a)")
     (simp_all add: discounts_step_def Let_def Map_get_Map_set grow_group_def new_group_def)

lemma keys_discounts_loop:
  "map fst (discounts_loop l m adjs) =
     map fst m @ first_seen (filter (\<lambda>s. s \<notin> set (map fst m))
                               (map Adjustment.adjustmentSource adjs))"
proof (induction adjs arbitrary: m)
  case Nil
  show ?case by simp
next
  case (Cons a adjs)
  show ?case
  proof (cases "Adjustment.adjustmentSource a \<in> set (map fst m)")
    case True
    then show ?thesis by (simp add: Cons.IH keys_discounts_step)
  next
    case False
    have "filter (\<lambda>s. s \<notin> set (map fst m @ [Adjustment.adjustmentSource a])) xs
        = filter (\<lambda>y. y \<noteq> Adjustment.adjustmentSource a)
            (filter (\<lambda>s. s \<notin> set (map fst m)) xs)"
      for xs by (induction xs) auto
    with False show ?thesis by (simp add: Cons.IH keys_discounts_step del: set_append)
  qed
qed

lemma Map_get_discounts_loop:
  "Map_get (discounts_loop l m adjs) k =
     (case Map_get m k of
        Some d \<Rightarrow>
          Some (grow_group l d (filter (\<lambda>a. Adjustment.adjustmentSource a = k) adjs))
      | None \<Rightarrow>
          (case filter (\<lambda>a. Adjustment.adjustmentSource a = k) adjs of
             [] \<Rightarrow> None
           | a # rest \<Rightarrow> Some (new_group l a rest)))"
proof (induction adjs arbitrary: m)
  case Nil
  show ?case by (simp add: grow_group_Nil split: option.splits)
next
  case (Cons a adjs)
  show ?case
  proof (cases "Adjustment.adjustmentSource a = k")
    case True
    show ?thesis
    proof (cases "Map_get m k")
      case None
      with True show ?thesis
        by (simp add: Cons.IH Map_get_discounts_step grow_new_group)
    next
      case (Some d)
      with True show ?thesis
        by (simp add: Cons.IH Map_get_discounts_step grow_group_Cons grow_group_def)
    qed
  next
    case False
    then have "k \<noteq> Adjustment.adjustmentSource a" by auto
    with False show ?thesis
      by (cases "Map_get m k") (simp_all add: Cons.IH Map_get_discounts_step)
  qed
qed

lemma discounts_groups:
  assumes "adjustments l = Some adjs"
  shows "\<exists>ds. discounts l = Inr ds
           \<and> map Discount.adjustmentSource ds
               = first_seen (map Adjustment.adjustmentSource adjs)
           \<and> (\<forall>d\<in>set ds. \<exists>a rest.
                  filter (\<lambda>x. Adjustment.adjustmentSource x = Discount.adjustmentSource d) adjs
                    = a # rest
                  \<and> d = new_group l a rest)"
proof -
  let ?r = "discounts_loop l [] adjs"
  have keys: "map fst ?r = first_seen (map Adjustment.adjustmentSource adjs)"
    by (simp add: keys_discounts_loop)
  then have dist: "distinct (map fst ?r)" by (simp add: distinct_first_seen)
  have entry: "\<exists>a rest. filter (\<lambda>x. Adjustment.adjustmentSource x = k) adjs = a # rest
                 \<and> d = new_group l a rest \<and> Discount.adjustmentSource d = k"
    if "(k, d) \<in> set ?r" for k d
  proof -
    from Map_get_distinct[OF dist that] have g: "Map_get ?r k = Some d" .
    then obtain a rest
      where f: "filter (\<lambda>x. Adjustment.adjustmentSource x = k) adjs = a # rest"
        and d: "d = new_group l a rest"
      by (auto simp: Map_get_discounts_loop split: list.splits)
    have "a \<in> set (filter (\<lambda>x. Adjustment.adjustmentSource x = k) adjs)"
      by (simp only: f list.set_intros)
    then have "Adjustment.adjustmentSource a = k" by simp
    with d have "Discount.adjustmentSource d = k" by (simp add: new_group_def)
    with f d show ?thesis by blast
  qed
  have "Discount.adjustmentSource (snd p) = fst p" if "p \<in> set ?r" for p
  proof -
    from that have "(fst p, snd p) \<in> set ?r" by simp
    from entry[OF this] show ?thesis by blast
  qed
  then have src: "map Discount.adjustmentSource (map snd ?r) = map fst ?r"
    by simp
  have grp: "\<exists>a rest. filter (\<lambda>x. Adjustment.adjustmentSource x
                                  = Discount.adjustmentSource d) adjs = a # rest
               \<and> d = new_group l a rest"
    if "d \<in> set (map snd ?r)" for d
  proof -
    from that obtain k where "(k, d) \<in> set ?r" by auto
    from entry[OF this] show ?thesis by auto
  qed
  have res: "discounts l = Inr (map snd ?r)"
    using assms by (simp add: discounts_def Map_values_def)
  show ?thesis
  proof (intro exI[of _ "map snd ?r"] conjI ballI)
    show "discounts l = Inr (map snd ?r)" by (rule res)
    show "map Discount.adjustmentSource (map snd ?r)
        = first_seen (map Adjustment.adjustmentSource adjs)"
      by (simp only: src keys)
    fix d assume "d \<in> set (map snd ?r)"
    then show "\<exists>a rest. filter (\<lambda>x. Adjustment.adjustmentSource x
                                    = Discount.adjustmentSource d) adjs = a # rest
                 \<and> d = new_group l a rest"
      by (rule grp)
  qed
qed

lemma num_sum_Cons_map:
  "num_sum (map f (a # rest)) = foldl num_add (f a) (map f rest)"
  by (simp add: num_sum_def num_add_zero_left)

lemma find_filter_Cons: "filter P xs = a # rest \<Longrightarrow> List.find P xs = Some a"
  by (induction xs) (auto split: if_splits)

text \<open>
  Claim C5. On a line with an adjustment sequence, \<open>discounts\<close> returns one discount
  for each source that occurs in the sequence and no other, in the order in which the
  sources first occur. Each adjustment contributes
  \<open>(amount / max(orderPlacedQuantity, quantity)) * quantity\<close>, which is
  \<open>unitAdjustmentAmount\<close>; \<open>discount_amount\<close> and \<open>discount_amountWithTax\<close> are
  its tax-exclusive and tax-inclusive values according to \<open>listPriceIncludesTax\<close>. The
  two amounts of a discount are the sums, in sequence order, of the contributions of
  all adjustments of its source.
\<close>

theorem discounts_one_group_per_source:
  assumes "adjustments l = Some adjs"
  shows "\<exists>ds. discounts l = Inr ds
           \<and> map Discount.adjustmentSource ds
               = first_seen (map Adjustment.adjustmentSource adjs)
           \<and> distinct (map Discount.adjustmentSource ds)
           \<and> set (map Discount.adjustmentSource ds) = Adjustment.adjustmentSource ` set adjs
           \<and> (\<forall>d\<in>set ds.
                 Discount.amount d
                   = num_sum (map (\<lambda>x. discount_amount l (Adjustment.amount x))
                       (filter (\<lambda>x. Adjustment.adjustmentSource x
                                       = Discount.adjustmentSource d) adjs))
                 \<and> Discount.amountWithTax d
                   = num_sum (map (\<lambda>x. discount_amountWithTax l (Adjustment.amount x))
                       (filter (\<lambda>x. Adjustment.adjustmentSource x
                                       = Discount.adjustmentSource d) adjs)))
           \<and> (\<forall>x. unitAdjustmentAmount l x
                      = num_mul
                          (num_div (Fin x)
                             (num_of_int (max (orderPlacedQuantity l) (quantity l))))
                          (num_of_int (quantity l))
                  \<and> discount_amount l x
                      = (if listPriceIncludesTax l
                         then netPriceOf (unitAdjustmentAmount l x) (taxRate l)
                         else unitAdjustmentAmount l x)
                  \<and> discount_amountWithTax l x
                      = (if listPriceIncludesTax l then unitAdjustmentAmount l x
                         else grossPriceOf (unitAdjustmentAmount l x) (taxRate l)))"
proof -
  from discounts_groups[OF assms] obtain ds
    where res: "discounts l = Inr ds"
      and order: "map Discount.adjustmentSource ds
                    = first_seen (map Adjustment.adjustmentSource adjs)"
      and grp: "\<forall>d\<in>set ds. \<exists>a rest.
                  filter (\<lambda>x. Adjustment.adjustmentSource x = Discount.adjustmentSource d) adjs
                    = a # rest
                  \<and> d = new_group l a rest"
    by blast
  have dist: "distinct (map Discount.adjustmentSource ds)"
    by (simp only: order distinct_first_seen)
  have srcs: "set (map Discount.adjustmentSource ds) = Adjustment.adjustmentSource ` set adjs"
    by (simp only: order set_first_seen set_map)
  have sums: "Discount.amount d
                   = num_sum (map (\<lambda>x. discount_amount l (Adjustment.amount x))
                       (filter (\<lambda>x. Adjustment.adjustmentSource x
                                       = Discount.adjustmentSource d) adjs))
                 \<and> Discount.amountWithTax d
                   = num_sum (map (\<lambda>x. discount_amountWithTax l (Adjustment.amount x))
                       (filter (\<lambda>x. Adjustment.adjustmentSource x
                                       = Discount.adjustmentSource d) adjs))"
    if "d \<in> set ds" for d
  proof -
    from grp that obtain a rest
      where f: "filter (\<lambda>x. Adjustment.adjustmentSource x = Discount.adjustmentSource d) adjs
                  = a # rest"
        and d: "d = new_group l a rest"
      by blast
    have "Discount.amount d
        = foldl num_add (discount_amount l (Adjustment.amount a))
            (map (\<lambda>x. discount_amount l (Adjustment.amount x)) rest)"
      by (subst d) (simp add: new_group_def)
    moreover have "Discount.amountWithTax d
        = foldl num_add (discount_amountWithTax l (Adjustment.amount a))
            (map (\<lambda>x. discount_amountWithTax l (Adjustment.amount x)) rest)"
      by (subst d) (simp add: new_group_def)
    ultimately show ?thesis by (simp only: f num_sum_Cons_map)
  qed
  have contrib: "unitAdjustmentAmount l x
                      = num_mul
                          (num_div (Fin x)
                             (num_of_int (max (orderPlacedQuantity l) (quantity l))))
                          (num_of_int (quantity l))
                  \<and> discount_amount l x
                      = (if listPriceIncludesTax l
                         then netPriceOf (unitAdjustmentAmount l x) (taxRate l)
                         else unitAdjustmentAmount l x)
                  \<and> discount_amountWithTax l x
                      = (if listPriceIncludesTax l then unitAdjustmentAmount l x
                         else grossPriceOf (unitAdjustmentAmount l x) (taxRate l))" for x
    by (simp add: unitAdjustmentAmount_def discount_amount_def discount_amountWithTax_def)
  show ?thesis
  proof (intro exI[of _ ds] conjI ballI allI)
    fix d assume "d \<in> set ds"
    from sums[OF this]
    show "Discount.amount d
                   = num_sum (map (\<lambda>x. discount_amount l (Adjustment.amount x))
                       (filter (\<lambda>x. Adjustment.adjustmentSource x
                                       = Discount.adjustmentSource d) adjs))"
      and "Discount.amountWithTax d
                   = num_sum (map (\<lambda>x. discount_amountWithTax l (Adjustment.amount x))
                       (filter (\<lambda>x. Adjustment.adjustmentSource x
                                       = Discount.adjustmentSource d) adjs))"
      by blast+
  qed (use res order dist srcs contrib in blast)+
qed

theorem discounts_one_group_per_source_witness:
  "adjustments line_grouped = Some [promotion_P1, promotion_O7, correction_P1]
   \<and> (\<exists>ds. discounts line_grouped = Inr ds
          \<and> map Discount.adjustmentSource ds = [''P1'', ''O7'']
          \<and> map Discount.amount ds = [Fin (- 267), Fin (- 50)]
          \<and> map Discount.amountWithTax ds = [Fin (- 320), Fin (- 60)])"
proof -
  have h: "adjustments line_grouped = Some [promotion_P1, promotion_O7, correction_P1]"
    by (simp add: line_grouped_def)
  have v: "discounts line_grouped
     = Inr [\<lparr>Discount.adjustmentSource = ''P1'', type = PROMOTION,
             description = ''promotion one'', amount = Fin (- 267),
             amountWithTax = Fin (- 320)\<rparr>,
            \<lparr>Discount.adjustmentSource = ''O7'', type = DISTRIBUTED_ORDER_PROMOTION,
             description = ''order promotion'', amount = Fin (- 50),
             amountWithTax = Fin (- 60)\<rparr>]"
    by code_simp
  from discounts_one_group_per_source[OF h] obtain ds
    where res: "discounts line_grouped = Inr ds"
      and order: "map Discount.adjustmentSource ds
                    = first_seen (map Adjustment.adjustmentSource
                        [promotion_P1, promotion_O7, correction_P1])"
    by blast
  from order have o: "map Discount.adjustmentSource ds = [''P1'', ''O7'']"
    by (simp add: promotion_P1_def promotion_O7_def correction_P1_def)
  from res v have a: "map Discount.amount ds = [Fin (- 267), Fin (- 50)]" by auto
  from res v have w: "map Discount.amountWithTax ds = [Fin (- 320), Fin (- 60)]" by auto
  from res o a w have "\<exists>ds. discounts line_grouped = Inr ds
          \<and> map Discount.adjustmentSource ds = [''P1'', ''O7'']
          \<and> map Discount.amount ds = [Fin (- 267), Fin (- 50)]
          \<and> map Discount.amountWithTax ds = [Fin (- 320), Fin (- 60)]"
    by (intro exI[of _ ds] conjI)
  with h show ?thesis by (rule conjI)
qed

text \<open>
  Claim C10. A discount takes its type and its description from the first adjustment of
  its source in the sequence. Of the later adjustments of that source only the amounts
  enter, added to the two amounts of the group.
\<close>

theorem discount_type_and_description_from_first:
  assumes "adjustments l = Some adjs" and "discounts l = Inr ds" and "d \<in> set ds"
  shows "\<exists>a rest.
           filter (\<lambda>x. Adjustment.adjustmentSource x = Discount.adjustmentSource d) adjs
             = a # rest
           \<and> List.find (\<lambda>x. Adjustment.adjustmentSource x = Discount.adjustmentSource d) adjs
               = Some a
           \<and> Discount.type d = Adjustment.type a
           \<and> Discount.description d = Adjustment.description a
           \<and> Discount.amount d
               = foldl num_add (discount_amount l (Adjustment.amount a))
                   (map (\<lambda>x. discount_amount l (Adjustment.amount x)) rest)
           \<and> Discount.amountWithTax d
               = foldl num_add (discount_amountWithTax l (Adjustment.amount a))
                   (map (\<lambda>x. discount_amountWithTax l (Adjustment.amount x)) rest)"
proof -
  from discounts_groups[OF assms(1)] assms(2,3) obtain a rest
    where f: "filter (\<lambda>x. Adjustment.adjustmentSource x = Discount.adjustmentSource d) adjs
                = a # rest"
      and d: "d = new_group l a rest"
    by auto
  note fnd = find_filter_Cons[OF f]
  have "Discount.type d = Adjustment.type a"
       "Discount.description d = Adjustment.description a"
       "Discount.amount d
               = foldl num_add (discount_amount l (Adjustment.amount a))
                   (map (\<lambda>x. discount_amount l (Adjustment.amount x)) rest)"
       "Discount.amountWithTax d
               = foldl num_add (discount_amountWithTax l (Adjustment.amount a))
                   (map (\<lambda>x. discount_amountWithTax l (Adjustment.amount x)) rest)"
    by (subst d, simp add: new_group_def)+
  with f fnd show ?thesis by blast
qed

theorem discount_type_and_description_from_first_witness:
  "adjustments line_grouped = Some [promotion_P1, promotion_O7, correction_P1]
   \<and> Adjustment.adjustmentSource correction_P1 = Adjustment.adjustmentSource promotion_P1
   \<and> Adjustment.type correction_P1 \<noteq> Adjustment.type promotion_P1
   \<and> (\<exists>ds d. discounts line_grouped = Inr ds \<and> d \<in> set ds
          \<and> Discount.adjustmentSource d = ''P1''
          \<and> Discount.type d = PROMOTION
          \<and> Discount.description d = ''promotion one'')"
proof -
  define d where "d = \<lparr>Discount.adjustmentSource = ''P1'', type = PROMOTION,
             description = ''promotion one'', amount = Fin (- 267),
             amountWithTax = Fin (- 320)\<rparr>"
  define ds where "ds = [d,
            \<lparr>Discount.adjustmentSource = ''O7'', type = DISTRIBUTED_ORDER_PROMOTION,
             description = ''order promotion'', amount = Fin (- 50),
             amountWithTax = Fin (- 60)\<rparr>]"
  have h1: "adjustments line_grouped = Some [promotion_P1, promotion_O7, correction_P1]"
    by (simp add: line_grouped_def)
  have h2: "discounts line_grouped = Inr ds" unfolding ds_def d_def by code_simp
  have h3: "d \<in> set ds" by (simp add: ds_def)
  have src: "Discount.adjustmentSource d = ''P1''" by (simp add: d_def)
  have flt: "filter (\<lambda>x. Adjustment.adjustmentSource x = Discount.adjustmentSource d)
               [promotion_P1, promotion_O7, correction_P1] = [promotion_P1, correction_P1]"
    by (simp add: src promotion_P1_def promotion_O7_def correction_P1_def)
  from discount_type_and_description_from_first[OF h1 h2 h3] obtain a rest
    where f: "filter (\<lambda>x. Adjustment.adjustmentSource x = Discount.adjustmentSource d)
               [promotion_P1, promotion_O7, correction_P1] = a # rest"
      and t: "Discount.type d = Adjustment.type a"
      and e: "Discount.description d = Adjustment.description a"
    by blast
  from f flt have "a = promotion_P1" by simp
  with t e have t': "Discount.type d = PROMOTION"
    and e': "Discount.description d = ''promotion one''"
    by (simp_all add: promotion_P1_def)
  from h2 h3 src t' e' have ex: "\<exists>ds d. discounts line_grouped = Inr ds \<and> d \<in> set ds
          \<and> Discount.adjustmentSource d = ''P1''
          \<and> Discount.type d = PROMOTION
          \<and> Discount.description d = ''promotion one''"
    by (intro exI[of _ ds] exI[of _ d] conjI)
  have s: "Adjustment.adjustmentSource correction_P1 = Adjustment.adjustmentSource promotion_P1"
    by (simp add: promotion_P1_def correction_P1_def)
  have n: "Adjustment.type correction_P1 \<noteq> Adjustment.type promotion_P1"
    by (simp add: promotion_P1_def correction_P1_def)
  from h1 s n ex show ?thesis by (intro conjI)
qed

subsection \<open>The adjustment total\<close>

lemma adjustments_total_zero:
  "quantity l = 0 \<or> adjustments l = None \<or> adjustments l = Some []
   \<Longrightarrow> getAdjustmentsTotal l ty = Fin 0"
  by (cases "adjustments l")
     (auto simp: getAdjustmentsTotal_def num_sum_def Math_round_zero simp del: Math_round.simps)



text \<open>
  Claim C1, as stated, for every line with at least one adjustment: the per-unit
  adjustment total is the rounded sum of the amounts divided by
  \<open>max(orderPlacedQuantity, quantity)\<close>. It fails on a line of quantity \<open>0\<close>, where
  \<open>getAdjustmentsTotal\<close> returns \<open>0\<close> before any division: on \<open>line_emptied\<close> the
  total is \<open>0\<close>, and the amount divided by \<open>max(2, 0)\<close> is \<open>-100\<close>.
\<close>

theorem per_unit_total_not_by_max_at_zero_quantity:
  "quantity line_emptied = 0 \<and> orderPlacedQuantity line_emptied = 2
   \<and> adjustments line_emptied = Some [promotion_P1]
   \<and> getAdjustmentsTotal line_emptied (Some PROMOTION) = Fin 0
   \<and> adjustmentsTotal_by_max line_emptied (Some PROMOTION) = Fin (- 100)
   \<and> getAdjustmentsTotal line_emptied (Some PROMOTION)
       \<noteq> adjustmentsTotal_by_max line_emptied (Some PROMOTION)"
proof -
  have a: "quantity line_emptied = 0 \<and> orderPlacedQuantity line_emptied = 2
      \<and> adjustments line_emptied = Some [promotion_P1]"
    by (simp add: line_emptied_def line_scenario_def)
  have b: "getAdjustmentsTotal line_emptied (Some PROMOTION) = Fin 0" by code_simp
  have c: "adjustmentsTotal_by_max line_emptied (Some PROMOTION) = Fin (- 100)" by code_simp
  from b c have "getAdjustmentsTotal line_emptied (Some PROMOTION)
       \<noteq> adjustmentsTotal_by_max line_emptied (Some PROMOTION)" by simp
  with a b c show ?thesis by simp
qed

text \<open>
  Claim C1, amended: on a line whose quantity is not \<open>0\<close>, the adjustment total that
  \<open>discountedUnitPrice\<close> (for promotions) and \<open>proratedUnitPrice\<close> (for all types) add
  to the list price is the rounded sum of the amounts divided by
  \<open>max(orderPlacedQuantity, quantity)\<close>, not by the quantity. On the line with a
  tax-exclusive list price of 1000, one promotion of \<open>-200\<close> recorded against two
  units and the quantity reduced to one, the per-unit effect is \<open>-100\<close> and the
  discounted line price is \<open>900\<close>.
\<close>

theorem per_unit_total_divides_by_max:
  assumes "quantity l \<noteq> 0" and "adjustments l = Some adjs"
  shows "getAdjustmentsTotal l ty = adjustmentsTotal_by_max l ty
       \<and> discountedUnitPrice l
           = (let result = num_add (num_of_int (listPrice l))
                             (adjustmentsTotal_by_max l (Some PROMOTION))
              in if listPriceIncludesTax l then netPriceOf result (taxRate l) else result)
       \<and> proratedUnitPrice l
           = (let result = num_add (num_of_int (listPrice l)) (adjustmentsTotal_by_max l None)
              in if listPriceIncludesTax l then netPriceOf result (taxRate l) else result)
       \<and> quantity line_reduced = 1 \<and> orderPlacedQuantity line_reduced = 2
       \<and> adjustments line_reduced = Some [promotion_P1]
       \<and> getAdjustmentsTotal line_reduced (Some PROMOTION) = Fin (- 100)
       \<and> discountedLinePrice line_reduced = Fin 900"
proof -
  have t: "getAdjustmentsTotal l ty' = adjustmentsTotal_by_max l ty'" for ty'
    using assms by (simp add: getAdjustmentsTotal_def adjustmentsTotal_by_max_def)
  have d: "discountedUnitPrice l
           = (let result = num_add (num_of_int (listPrice l))
                             (adjustmentsTotal_by_max l (Some PROMOTION))
              in if listPriceIncludesTax l then netPriceOf result (taxRate l) else result)"
    by (simp only: discountedUnitPrice_def t)
  have p: "proratedUnitPrice l
           = (let result = num_add (num_of_int (listPrice l)) (adjustmentsTotal_by_max l None)
              in if listPriceIncludesTax l then netPriceOf result (taxRate l) else result)"
    by (simp only: proratedUnitPrice_def t)
  have s1: "quantity line_reduced = 1 \<and> orderPlacedQuantity line_reduced = 2
       \<and> adjustments line_reduced = Some [promotion_P1]"
    by (simp add: line_reduced_def line_scenario_def)
  have s2: "getAdjustmentsTotal line_reduced (Some PROMOTION) = Fin (- 100)" by code_simp
  have s3: "discountedLinePrice line_reduced = Fin 900" by code_simp
  from t[of ty] d p s1 s2 s3 show ?thesis by (intro conjI) simp_all
qed

theorem per_unit_total_divides_by_max_witness:
  "quantity line_reduced \<noteq> 0
   \<and> adjustments line_reduced = Some [promotion_P1]
   \<and> getAdjustmentsTotal line_reduced (Some PROMOTION)
       = adjustmentsTotal_by_max line_reduced (Some PROMOTION)
   \<and> adjustmentsTotal_by_max line_reduced (Some PROMOTION) = Fin (- 100)"
proof -
  have h1: "quantity line_reduced \<noteq> 0" by (simp add: line_reduced_def line_scenario_def)
  have h2: "adjustments line_reduced = Some [promotion_P1]"
    by (simp add: line_reduced_def line_scenario_def)
  have v: "adjustmentsTotal_by_max line_reduced (Some PROMOTION) = Fin (- 100)" by code_simp
  from per_unit_total_divides_by_max[OF h1 h2, of "Some PROMOTION"]
  have "getAdjustmentsTotal line_reduced (Some PROMOTION)
       = adjustmentsTotal_by_max line_reduced (Some PROMOTION)" by (rule conjunct1)
  with h1 h2 v show ?thesis by (intro conjI)
qed

text \<open>
  Claim C4 asks that every derived figure of a line of quantity \<open>0\<close>, or of a line with
  no adjustment list, is a number, the amounts of the discounts included.
  \<open>getAdjustmentsTotal\<close> has a guard for both cases and returns \<open>0\<close>; \<open>discounts\<close>
  has neither guard. On \<open>line_zero\<close> it divides by \<open>max(0, 0)\<close> and multiplies by
  \<open>0\<close>, so both amounts of the discount are \<open>NaN\<close>; on \<open>line_absent\<close> it iterates
  an absent list and throws.
\<close>

theorem discounts_without_the_guards:
  "quantity line_zero = 0 \<and> orderPlacedQuantity line_zero = 0
   \<and> adjustments line_zero = Some [promotion_P1]
   \<and> getAdjustmentsTotal line_zero None = Fin 0
   \<and> discounts line_zero
       = Inr [\<lparr>Discount.adjustmentSource = ''P1'', type = PROMOTION,
               description = ''promotion one'', amount = NaN, amountWithTax = NaN\<rparr>]
   \<and> adjustments line_absent = None
   \<and> getAdjustmentsTotal line_absent None = Fin 0
   \<and> discounts line_absent = Inl TypeError"
proof -
  have a: "quantity line_zero = 0 \<and> orderPlacedQuantity line_zero = 0
      \<and> adjustments line_zero = Some [promotion_P1]"
    by (simp add: line_zero_def)
  have b: "getAdjustmentsTotal line_zero None = Fin 0" by code_simp
  have c: "discounts line_zero
       = Inr [\<lparr>Discount.adjustmentSource = ''P1'', type = PROMOTION,
               description = ''promotion one'', amount = NaN, amountWithTax = NaN\<rparr>]"
    by code_simp
  have d: "adjustments line_absent = None" by (simp add: line_absent_def)
  have e: "getAdjustmentsTotal line_absent None = Fin 0" by code_simp
  have f: "discounts line_absent = Inl TypeError" by code_simp
  from a b c d e f show ?thesis by (intro conjI) simp_all
qed

subsection \<open>Net and gross prices\<close>

lemma net_of_gross_bounds:
  fixes r :: rat and x :: int
  assumes "0 \<le> r"
  defines "k \<equiv> 1 + r / 100"
  defines "g \<equiv> \<lfloor>of_int x * k + 1 / 2\<rfloor>"
  defines "n \<equiv> \<lfloor>of_int g / k + 1 / 2\<rfloor>"
  shows "x \<le> n" and "n \<le> x + 1"
proof -
  from assms(1) have k: "1 \<le> k" by (simp add: k_def)
  then have kpos: "0 < k" by linarith
  have g_le: "of_int g \<le> of_int x * k + 1 / 2" unfolding g_def by linarith
  have g_gt: "of_int x * k - 1 / 2 < of_int g" unfolding g_def by linarith
  have "of_int x * k - k / 2 \<le> of_int x * k - 1 / 2" using k by simp
  with g_gt have "(of_int x - 1 / 2) * k < of_int g" by (simp add: algebra_simps)
  with kpos have lo: "of_int x - 1 / 2 < of_int g / k" by (simp add: pos_less_divide_eq)
  have "of_int x * k + 1 / 2 \<le> of_int x * k + k / 2" using k by simp
  with g_le have "of_int g \<le> (of_int x + 1 / 2) * k" by (simp add: algebra_simps)
  with kpos have hi: "of_int g / k \<le> of_int x + 1 / 2" by (simp add: pos_divide_le_eq)
  from lo have "of_int x \<le> of_int g / k + 1 / 2" by linarith
  then show "x \<le> n" unfolding n_def by (simp add: le_floor_iff)
  from hi have "of_int g / k + 1 / 2 < of_int (x + 1) + 1" by simp
  then show "n \<le> x + 1" unfolding n_def by (simp only: floor_le_iff)
qed

text \<open>
  Claim C9. For an integer amount \<open>x\<close> and a tax rate \<open>r \<ge> 0\<close>, the net price of the
  gross price of \<open>x\<close> is an integer within one minor unit of \<open>x\<close>.
\<close>

theorem net_of_gross_within_one:
  assumes "0 \<le> r"
  shows "\<exists>n. netPriceOf (grossPriceOf (num_of_int x) r) r = Fin (of_int n) \<and> \<bar>n - x\<bar> \<le> 1"
proof -
  from assms have "0 < 1 + r / 100" by (simp add: add_pos_nonneg)
  then have k: "1 + r / 100 \<noteq> 0" by simp
  have eq: "netPriceOf (grossPriceOf (num_of_int x) r) r
      = Fin (of_int \<lfloor>of_int \<lfloor>of_int x * (1 + r / 100) + 1 / 2\<rfloor> / (1 + r / 100) + 1 / 2\<rfloor>)"
    using k by (simp add: netPriceOf_def grossPriceOf_def num_of_int_def)
  from net_of_gross_bounds[OF assms, of x]
  have "\<bar>\<lfloor>of_int \<lfloor>of_int x * (1 + r / 100) + 1 / 2\<rfloor> / (1 + r / 100) + 1 / 2\<rfloor> - x\<bar> \<le> 1"
    by linarith
  with eq show ?thesis by blast
qed

theorem net_of_gross_within_one_witness:
  "(0 :: rat) \<le> 20
   \<and> grossPriceOf (num_of_int 999) 20 = Fin 1199
   \<and> (\<exists>n. netPriceOf (grossPriceOf (num_of_int 999) 20) 20 = Fin (of_int n) \<and> \<bar>n - 999\<bar> \<le> 1)"
proof -
  have h: "(0 :: rat) \<le> 20" by simp
  have g: "grossPriceOf (num_of_int 999) 20 = Fin 1199" by code_simp
  from h g net_of_gross_within_one[OF h, of 999] show ?thesis by (intro conjI)
qed

end
